theory Spec2Isabelle
  imports Complex_Main "HOL-Library.Log_Nat" "HOL-Library.Multiset"
begin

section \<open>Python primitives used by the contract engine\<close>

text \<open>
  Text is a list of characters, each standing for one code point below 256 (ASCII and
  Latin-1).  The character classes below are those of Python 3 on that range.
\<close>

subsection \<open>Double-precision arithmetic\<close>

text \<open>
  A Python \<open>float\<close> is an IEEE-754 double.  A finite double is a rational number, and every
  operation returns the double nearest to the exact result, ties going to the even
  significand.  \<open>fl\<close> is that rounding for values in the normal range (all values computed
  here lie between 1/6 and 600).
\<close>

definition round_half_even :: "rat \<Rightarrow> int" where
  "round_half_even r =
     (let f = \<lfloor>r\<rfloor>; d = r - of_int f
      in if d < 1 / 2 then f
         else if 1 / 2 < d then f + 1
         else if even f then f else f + 1)"

definition binade :: "rat \<Rightarrow> int" where
  \<comment> \<open>the exponent \<open>e\<close> with \<open>2 ^ e \<le> y < 2 ^ (e + 1)\<close>, for \<open>0 < y\<close>\<close>
  "binade y =
     (if 1 \<le> y then int (floorlog 2 (nat \<lfloor>y\<rfloor>)) - 1
      else - int (floorlog 2 (nat (\<lceil>1 / y\<rceil> - 1))))"

definition pow2 :: "int \<Rightarrow> rat" where
  "pow2 e = (if 0 \<le> e then 2 ^ nat e else 1 / 2 ^ nat (- e))"

definition fl :: "rat \<Rightarrow> rat" where
  "fl x =
     (if x = 0 then 0
      else let y = \<bar>x\<bar>; ulp = pow2 (binade y - 52)
           in sgn x * of_int (round_half_even (y / ulp)) * ulp)"

section \<open>Risk levels and the contract-level score (analysis.py)\<close>

datatype RiskLevel = LOW | MEDIUM | HIGH

definition weights :: "RiskLevel \<Rightarrow> int" where
  \<comment> \<open>\<open>weights = {"LOW": 1, "MEDIUM": 3, "HIGH": 6}\<close>\<close>
  "weights r = (case r of LOW \<Rightarrow> 1 | MEDIUM \<Rightarrow> 3 | HIGH \<Rightarrow> 6)"

definition risk_value :: "RiskLevel list \<Rightarrow> rat" where
  \<comment> \<open>\<open>(avg / 6.0) * 100\<close> with \<open>avg = total / len(clause_risks)\<close>, in doubles\<close>
  "risk_value clause_risks =
     (let total = sum_list (map weights clause_risks);
          avg = fl (of_int total / of_int (int (length clause_risks)))
      in fl (fl (avg / 6) * 100))"

definition contract_level_risk_score :: "RiskLevel list \<Rightarrow> int" where
  \<comment> \<open>\<open>int(min(100, max(0, v)))\<close>: Python's \<open>max(0, v)\<close> is \<open>v\<close> only if \<open>v > 0\<close>,
      \<open>min(100, m)\<close> is \<open>m\<close> only if \<open>m < 100\<close>, and \<open>int\<close> truncates\<close>
  "contract_level_risk_score clause_risks =
     (if clause_risks = [] then 0
      else let v = risk_value clause_risks;
               mx = (if 0 < v then v else 0);
               mn = (if mx < 100 then mx else 100)
           in \<lfloor>mn\<rfloor>)"


section \<open>Strings\<close>

definition isspace :: "char \<Rightarrow> bool" where
  \<comment> \<open>\<open>str.isspace\<close>, also the class \<open>\s\<close> of \<open>re\<close>\<close>
  "isspace c = (of_char c \<in> {9, 10, 11, 12, 13, 28, 29, 30, 31, 32, 133, 160 :: nat})"

definition isupper :: "char \<Rightarrow> bool" where
  \<comment> \<open>the characters that \<open>str.lower\<close> changes: A-Z and the Latin-1 capitals\<close>
  "isupper c =
     (let n = of_char c :: nat
      in (65 \<le> n \<and> n \<le> 90) \<or> (192 \<le> n \<and> n \<le> 214) \<or> (216 \<le> n \<and> n \<le> 222))"

definition lower_char :: "char \<Rightarrow> char" where
  "lower_char c = (if isupper c then char_of (of_char c + 32 :: nat) else c)"

definition lower :: "string \<Rightarrow> string" where
  \<comment> \<open>\<open>str.lower\<close>\<close>
  "lower s = map lower_char s"

fun startswith :: "string \<Rightarrow> string \<Rightarrow> bool" where
  \<comment> \<open>\<open>startswith s p\<close> is \<open>s.startswith(p)\<close>\<close>
  "startswith s [] = True"
| "startswith [] (p # ps) = False"
| "startswith (c # cs) (p # ps) = (c = p \<and> startswith cs ps)"

fun str_in :: "string \<Rightarrow> string \<Rightarrow> bool" where
  \<comment> \<open>\<open>str_in k s\<close> is \<open>k in s\<close>: \<open>k\<close> occurs in \<open>s\<close> as a contiguous substring\<close>
  "str_in k [] = (k = [])"
| "str_in k (c # cs) = (startswith (c # cs) k \<or> str_in k cs)"

fun join :: "string \<Rightarrow> string list \<Rightarrow> string" where
  \<comment> \<open>\<open>join sep xs\<close> is \<open>sep.join(xs)\<close>\<close>
  "join sep [] = []"
| "join sep [x] = x"
| "join sep (x # y # ys) = x @ sep @ join sep (y # ys)"

section \<open>Clause intent and clause risk (analysis.py)\<close>

datatype Intent = PROHIBITION | OBLIGATION | RIGHT | CONDITIONAL | INFORMATIONAL

definition classify_clause_intent :: "string \<Rightarrow> Intent" where
  "classify_clause_intent text =
     (let low = lower text
      in if list_ex (\<lambda>k. str_in k low)
              [''shall not'', ''must not'', ''prohibited'', ''no party shall'']
         then PROHIBITION
         else if list_ex (\<lambda>k. str_in k low)
              [''shall'', ''must'', ''agrees to'', ''undertakes to'']
         then OBLIGATION
         else if list_ex (\<lambda>k. str_in k low) [''may'', ''entitled to'', ''reserves the right'']
         then RIGHT
         else if list_ex (\<lambda>k. str_in k low)
              [''subject to'', ''provided that'', ''if '', ''in the event that'']
         then CONDITIONAL
         else INFORMATIONAL)"

definition business_impact :: "Intent \<Rightarrow> string \<Rightarrow> string" where
  "business_impact intent text =
     (case intent of
        OBLIGATION \<Rightarrow>
          ''Specifies something a party is required to do; missing this may lead to breach.''
      | RIGHT \<Rightarrow> ''Gives a party a choice or benefit they can exercise.''
      | PROHIBITION \<Rightarrow>
          ''Restricts or stops a party from doing something; breach can trigger penalties or termination.''
      | CONDITIONAL \<Rightarrow>
          ''Describes what happens only if certain conditions or events occur.''
      | INFORMATIONAL \<Rightarrow>
          ''Explains background, definitions, or general information without direct action.'')"

definition risk_index :: "RiskLevel \<Rightarrow> nat" where
  \<comment> \<open>\<open>["LOW", "MEDIUM", "HIGH"].index\<close>\<close>
  "risk_index r = (case r of LOW \<Rightarrow> 0 | MEDIUM \<Rightarrow> 1 | HIGH \<Rightarrow> 2)"

definition max_risk :: "RiskLevel \<Rightarrow> RiskLevel \<Rightarrow> RiskLevel" where
  \<comment> \<open>\<open>max(a, b, key=["LOW", "MEDIUM", "HIGH"].index)\<close>: the first of the largest\<close>
  "max_risk a b = (if risk_index a < risk_index b then b else a)"

text \<open>
  \<open>clause_risk_level\<close> runs twelve \<open>if\<close> statements in a row over the pair of the current
  risk and the flags collected so far.  Each statement is one rule below, a function of
  the lower-cased text \<open>low\<close> on that pair.
\<close>

type_synonym risk_state = "RiskLevel \<times> string list"

definition rule_lock_in :: "string \<Rightarrow> risk_state \<Rightarrow> risk_state" where
  "rule_lock_in low = (\<lambda>(risk, flags).
     if str_in ''lock-in'' low \<or> str_in ''lock in'' low \<or> str_in ''non-cancellable'' low
     then (HIGH, flags @ [''lock_in_or_non_cancellable''])
     else (risk, flags))"

definition rule_auto_renewal :: "string \<Rightarrow> risk_state \<Rightarrow> risk_state" where
  "rule_auto_renewal low = (\<lambda>(risk, flags).
     if str_in ''auto-renew'' low \<or> str_in ''automatically renew'' low
     then (max_risk risk MEDIUM, flags @ [''auto_renewal''])
     else (risk, flags))"

definition rule_indemnity :: "string \<Rightarrow> risk_state \<Rightarrow> risk_state" where
  "rule_indemnity low = (\<lambda>(risk, flags).
     if str_in ''indemnify'' low \<or> str_in ''indemnity'' low
     then (if str_in ''unlimited'' low \<or> str_in ''all claims'' low
           then (HIGH, flags @ [''indemnity''])
           else (max_risk risk MEDIUM, flags @ [''indemnity'']))
     else (risk, flags))"

definition rule_unlimited_liability :: "string \<Rightarrow> risk_state \<Rightarrow> risk_state" where
  "rule_unlimited_liability low = (\<lambda>(risk, flags).
     if str_in ''unlimited liability'' low \<or> str_in ''without any limitation'' low
     then (HIGH, flags @ [''unlimited_liability''])
     else (risk, flags))"

definition rule_limitation_of_liability :: "string \<Rightarrow> risk_state \<Rightarrow> risk_state" where
  "rule_limitation_of_liability low = (\<lambda>(risk, flags).
     if str_in ''limitation of liability'' low \<or> str_in ''liability shall be limited'' low
     then (risk, flags @ [''limitation_of_liability''])
     else (risk, flags))"

definition rule_ip_assignment :: "string \<Rightarrow> risk_state \<Rightarrow> risk_state" where
  "rule_ip_assignment low = (\<lambda>(risk, flags).
     if str_in ''assign all intellectual property'' low
        \<or> (str_in ''hereby assigns'' low \<and> str_in ''intellectual property'' low)
     then (max_risk risk MEDIUM, flags @ [''ip_assignment''])
     else (risk, flags))"

definition rule_non_compete :: "string \<Rightarrow> risk_state \<Rightarrow> risk_state" where
  "rule_non_compete low = (\<lambda>(risk, flags).
     if str_in ''non-compete'' low \<or> str_in ''non compete'' low
        \<or> (str_in ''exclusive'' low \<and> str_in ''territory'' low)
     then (max_risk risk MEDIUM, flags @ [''non_compete_or_exclusivity''])
     else (risk, flags))"

definition rule_penalties :: "string \<Rightarrow> risk_state \<Rightarrow> risk_state" where
  "rule_penalties low = (\<lambda>(risk, flags).
     if str_in ''penalty'' low \<or> str_in ''liquidated damages'' low \<or> str_in ''fine'' low
     then (max_risk risk MEDIUM, flags @ [''penalties_or_liquidated_damages''])
     else (risk, flags))"

definition rule_late_payment_interest :: "string \<Rightarrow> risk_state \<Rightarrow> risk_state" where
  "rule_late_payment_interest low = (\<lambda>(risk, flags).
     if str_in ''interest'' low \<and> str_in ''late payment'' low
     then (risk, flags @ [''late_payment_interest''])
     else (risk, flags))"

definition rule_unilateral_termination :: "string \<Rightarrow> risk_state \<Rightarrow> risk_state" where
  "rule_unilateral_termination low = (\<lambda>(risk, flags).
     if str_in ''may terminate'' low \<and> \<not> str_in ''other party may not'' low
     then (max_risk risk MEDIUM, flags @ [''unilateral_termination''])
     else (risk, flags))"

definition rule_confidentiality :: "string \<Rightarrow> risk_state \<Rightarrow> risk_state" where
  "rule_confidentiality low = (\<lambda>(risk, flags).
     if str_in ''confidential'' low \<or> str_in ''non-disclosure'' low
     then (risk, flags @ [''confidentiality''])
     else (risk, flags))"

definition rule_arbitration :: "string \<Rightarrow> risk_state \<Rightarrow> risk_state" where
  "rule_arbitration low = (\<lambda>(risk, flags).
     if str_in ''arbitration'' low \<or> str_in ''arbitral'' low \<or> str_in ''arbitrator'' low
     then (max_risk risk MEDIUM, flags @ [''arbitration_and_jurisdiction''])
     else (risk, flags))"

definition trigger_rules :: "(string \<Rightarrow> risk_state \<Rightarrow> risk_state) list" where
  \<comment> \<open>the rules in the order of the source\<close>
  "trigger_rules =
     [rule_lock_in, rule_auto_renewal, rule_indemnity, rule_unlimited_liability,
      rule_limitation_of_liability, rule_ip_assignment, rule_non_compete, rule_penalties,
      rule_late_payment_interest, rule_unilateral_termination, rule_confidentiality,
      rule_arbitration]"

definition run_rules ::
  "(string \<Rightarrow> risk_state \<Rightarrow> risk_state) list \<Rightarrow> string \<Rightarrow> risk_state \<Rightarrow> risk_state" where
  "run_rules rules low st = fold (\<lambda>rule. rule low) rules st"

definition clause_risk_level_with ::
  "(string \<Rightarrow> risk_state \<Rightarrow> risk_state) list \<Rightarrow> string \<Rightarrow> Intent \<Rightarrow> RiskLevel \<times> string list" where
  \<comment> \<open>the body of \<open>clause_risk_level\<close> with the rules evaluated in the order of \<open>rules\<close>\<close>
  "clause_risk_level_with rules text intent =
     (let low = lower text;
          (risk, flags) = run_rules rules low (LOW, []);
          risk = (if intent \<in> set [PROHIBITION] \<and> risk = LOW then MEDIUM else risk)
      in (risk, flags))"

definition clause_risk_level :: "string \<Rightarrow> Intent \<Rightarrow> RiskLevel \<times> string list" where
  "clause_risk_level text intent = clause_risk_level_with trigger_rules text intent"

text \<open>
  What one rule contributes on its own: the level it asks for and the flags it adds, read
  off by running it from the initial state.
\<close>

definition rule_target :: "(string \<Rightarrow> risk_state \<Rightarrow> risk_state) \<Rightarrow> string \<Rightarrow> RiskLevel" where
  "rule_target rule low = fst (rule low (LOW, []))"

definition rule_flags :: "(string \<Rightarrow> risk_state \<Rightarrow> risk_state) \<Rightarrow> string \<Rightarrow> string list" where
  "rule_flags rule low = snd (rule low (LOW, []))"

section \<open>Renegotiation suggestions (analysis.py)\<close>

definition suggestion_table :: "(string \<times> string) list" where
  \<comment> \<open>the flag tested by each \<open>if\<close> of \<open>renegotiation_suggestion_for_clause\<close> and the
      sentence it appends, in the order of the source; the dash of ``6-12'' is U+2013,
      written here as its three UTF-8 bytes\<close>
  "suggestion_table =
     [(''lock_in_or_non_cancellable'',
       ''Replace strict lock-in with the ability for either party to terminate for convenience with 30 days' notice and payment only for work actually done.''),
      (''auto_renewal'',
       ''Change auto-renewal to renewal only with written confirmation, or allow either party to opt out by giving prior written notice (for example, 30 days before renewal).''),
      (''indemnity'',
       ''Limit indemnity to direct third-party claims caused by proven breach or gross negligence, and cap the indemnity amount to a reasonable multiple of the total fees paid.''),
      (''unlimited_liability'',
       ''Cap total liability to 6'' @ [CHR 0xE2, CHR 0x80, CHR 0x93] @ ''12 months of fees paid under the agreement, except for confidentiality breach and willful misconduct.''),
      (''ip_assignment'',
       ''Clarify that only project-specific deliverables are assigned and the service provider keeps all tools, templates and background IP, while giving the client a license to use them as embedded in the deliverables.''),
      (''non_compete_or_exclusivity'',
       ''Narrow any non-compete or exclusivity to specific customers, products or territory, and limit the duration to a reasonable period (for example, 6'' @ [CHR 0xE2, CHR 0x80, CHR 0x93] @ ''12 months).''),
      (''penalties_or_liquidated_damages'',
       ''Replace strict penalties with reasonable, pre-agreed service credits or a capped amount, and ensure any liquidated damages reflect a genuine pre-estimate of loss.''),
      (''unilateral_termination'',
       ''Allow both parties to terminate for material breach (with a cure period) and for convenience with notice, rather than only one side having this right.''),
      (''arbitration_and_jurisdiction'',
       ''Ensure arbitration seat and governing law are in India (e.g. Indian Arbitration Act) and venue is practical for both parties; consider mutual consent for arbitrator appointment.'')]"

definition renegotiation_suggestion_for_clause :: "string list \<Rightarrow> string \<Rightarrow> string option" where
  "renegotiation_suggestion_for_clause flags text =
     (if flags = [] then None
      else let suggestions =
                 concat (map (\<lambda>(flag, sentence). if flag \<in> set flags then [sentence] else [])
                   suggestion_table)
           in if suggestions = [] then None else Some (join '' '' suggestions))"

section \<open>Properties of the contract-level score\<close>

lemma fl_one: "fl 1 = 1"
  by code_simp

lemma fl_six: "fl 6 = 6"
  by code_simp

lemma fl_three: "fl 3 = 3"
  by code_simp












subsection \<open>Distance of the score from the exact quotient\<close>

















text \<open>
  The truncation can therefore fall one below the truncation of the exact quotient, when
  the exact quotient is a whole number and the double lies just below it: nine MEDIUM
  clauses and one HIGH clause have mean 3.3 and exact value 55, and the code returns 54.
\<close>

lemma score_truncation_defect:
  "contract_level_risk_score (replicate 9 MEDIUM @ [HIGH]) = 54
   \<and> \<lfloor>of_int (sum_list (map weights (replicate 9 MEDIUM @ [HIGH])))
        / of_int (int (length (replicate 9 MEDIUM @ [HIGH]))) / 6 * 100 :: rat\<rfloor> = 55"
  by code_simp

subsection \<open>The composite score (C1)\<close>




section \<open>Properties of the clause risk classifier\<close>

lemmas rule_defs = rule_lock_in_def rule_auto_renewal_def rule_indemnity_def
  rule_unlimited_liability_def rule_limitation_of_liability_def rule_ip_assignment_def
  rule_non_compete_def rule_penalties_def rule_late_payment_interest_def
  rule_unilateral_termination_def rule_confidentiality_def rule_arbitration_def

lemma risk_index_inj: "risk_index a = risk_index b \<Longrightarrow> a = b"
  by (cases a; cases b) (simp_all add: risk_index_def)

lemma risk_index_max_risk: "risk_index (max_risk a b) = max (risk_index a) (risk_index b)"
  by (simp add: max_risk_def max_def)

lemma max_risk_simps:
  "max_risk r LOW = r" "max_risk r HIGH = HIGH" "max_risk LOW r = r"
  by (cases r; simp add: max_risk_def risk_index_def)+

lemma shape_lock_in:
  "rule_lock_in low (risk, flags)
   = (max_risk risk (rule_target rule_lock_in low), flags @ rule_flags rule_lock_in low)"
  by (simp add: rule_lock_in_def rule_target_def rule_flags_def max_risk_simps)

lemma shape_auto_renewal:
  "rule_auto_renewal low (risk, flags)
   = (max_risk risk (rule_target rule_auto_renewal low), flags @ rule_flags rule_auto_renewal low)"
  by (simp add: rule_auto_renewal_def rule_target_def rule_flags_def max_risk_simps)

lemma shape_indemnity:
  "rule_indemnity low (risk, flags)
   = (max_risk risk (rule_target rule_indemnity low), flags @ rule_flags rule_indemnity low)"
  by (simp add: rule_indemnity_def rule_target_def rule_flags_def max_risk_simps)

lemma shape_unlimited_liability:
  "rule_unlimited_liability low (risk, flags)
   = (max_risk risk (rule_target rule_unlimited_liability low), flags @ rule_flags rule_unlimited_liability low)"
  by (simp add: rule_unlimited_liability_def rule_target_def rule_flags_def max_risk_simps)

lemma shape_limitation_of_liability:
  "rule_limitation_of_liability low (risk, flags)
   = (max_risk risk (rule_target rule_limitation_of_liability low), flags @ rule_flags rule_limitation_of_liability low)"
  by (simp add: rule_limitation_of_liability_def rule_target_def rule_flags_def max_risk_simps)

lemma shape_ip_assignment:
  "rule_ip_assignment low (risk, flags)
   = (max_risk risk (rule_target rule_ip_assignment low), flags @ rule_flags rule_ip_assignment low)"
  by (simp add: rule_ip_assignment_def rule_target_def rule_flags_def max_risk_simps)

lemma shape_non_compete:
  "rule_non_compete low (risk, flags)
   = (max_risk risk (rule_target rule_non_compete low), flags @ rule_flags rule_non_compete low)"
  by (simp add: rule_non_compete_def rule_target_def rule_flags_def max_risk_simps)

lemma shape_penalties:
  "rule_penalties low (risk, flags)
   = (max_risk risk (rule_target rule_penalties low), flags @ rule_flags rule_penalties low)"
  by (simp add: rule_penalties_def rule_target_def rule_flags_def max_risk_simps)

lemma shape_late_payment_interest:
  "rule_late_payment_interest low (risk, flags)
   = (max_risk risk (rule_target rule_late_payment_interest low), flags @ rule_flags rule_late_payment_interest low)"
  by (simp add: rule_late_payment_interest_def rule_target_def rule_flags_def max_risk_simps)

lemma shape_unilateral_termination:
  "rule_unilateral_termination low (risk, flags)
   = (max_risk risk (rule_target rule_unilateral_termination low), flags @ rule_flags rule_unilateral_termination low)"
  by (simp add: rule_unilateral_termination_def rule_target_def rule_flags_def max_risk_simps)

lemma shape_confidentiality:
  "rule_confidentiality low (risk, flags)
   = (max_risk risk (rule_target rule_confidentiality low), flags @ rule_flags rule_confidentiality low)"
  by (simp add: rule_confidentiality_def rule_target_def rule_flags_def max_risk_simps)

lemma shape_arbitration:
  "rule_arbitration low (risk, flags)
   = (max_risk risk (rule_target rule_arbitration low), flags @ rule_flags rule_arbitration low)"
  by (simp add: rule_arbitration_def rule_target_def rule_flags_def max_risk_simps)

lemmas rule_shapes =
  shape_lock_in shape_auto_renewal shape_indemnity shape_unlimited_liability
  shape_limitation_of_liability shape_ip_assignment shape_non_compete shape_penalties
  shape_late_payment_interest shape_unilateral_termination shape_confidentiality shape_arbitration

lemma rule_shape:
  assumes "rule \<in> set trigger_rules"
  shows "rule low (risk, flags) = (max_risk risk (rule_target rule low), flags @ rule_flags rule low)"
proof -
  from assms consider
    "rule = rule_lock_in" | "rule = rule_auto_renewal" | "rule = rule_indemnity"
    | "rule = rule_unlimited_liability" | "rule = rule_limitation_of_liability"
    | "rule = rule_ip_assignment" | "rule = rule_non_compete" | "rule = rule_penalties"
    | "rule = rule_late_payment_interest" | "rule = rule_unilateral_termination"
    | "rule = rule_confidentiality" | "rule = rule_arbitration"
    unfolding trigger_rules_def by auto
  then show ?thesis
    by cases (simp_all only: rule_shapes)
qed

lemma run_rules_fst:
  assumes "\<forall>rule\<in>set rules. rule \<in> set trigger_rules"
  shows "risk_index (fst (run_rules rules low st))
         = fold (\<lambda>rule n. max n (risk_index (rule_target rule low))) rules (risk_index (fst st))"
  using assms
proof (induction rules arbitrary: st)
  case Nil
  then show ?case by (simp add: run_rules_def)
next
  case (Cons rule rules)
  obtain risk flags where st: "st = (risk, flags)" by (cases st)
  have "rule \<in> set trigger_rules" using Cons.prems by simp
  then have step:
    "rule low (risk, flags) = (max_risk risk (rule_target rule low), flags @ rule_flags rule low)"
    by (rule rule_shape)
  have "run_rules (rule # rules) low st = run_rules rules low (rule low st)"
    by (simp add: run_rules_def)
  then show ?case
    using Cons.IH [of "rule low st"] Cons.prems
    by (simp add: step st risk_index_max_risk)
qed

lemma run_rules_snd:
  assumes "\<forall>rule\<in>set rules. rule \<in> set trigger_rules"
  shows "snd (run_rules rules low st) = snd st @ concat (map (\<lambda>rule. rule_flags rule low) rules)"
  using assms
proof (induction rules arbitrary: st)
  case Nil
  then show ?case by (simp add: run_rules_def)
next
  case (Cons rule rules)
  obtain risk flags where st: "st = (risk, flags)" by (cases st)
  have "rule \<in> set trigger_rules" using Cons.prems by simp
  then have step:
    "rule low (risk, flags) = (max_risk risk (rule_target rule low), flags @ rule_flags rule low)"
    by (rule rule_shape)
  have "run_rules (rule # rules) low st = run_rules rules low (rule low st)"
    by (simp add: run_rules_def)
  then show ?case
    using Cons.IH [of "rule low st"] Cons.prems
    by (simp add: step st)
qed

lemma fold_max_perm:
  assumes "mset rules = mset rules'"
  shows "fold (\<lambda>rule n. max n (risk_index (rule_target rule low))) rules k
       = fold (\<lambda>rule n. max n (risk_index (rule_target rule low))) rules' k"
proof -
  have "fold (\<lambda>rule n. max n (risk_index (rule_target rule low))) rules
      = fold (\<lambda>rule n. max n (risk_index (rule_target rule low))) rules'"
    by (rule fold_multiset_equiv [OF _ assms]) (auto simp: fun_eq_iff)
  then show ?thesis by simp
qed

lemma run_rules_perm_fst:
  assumes "mset rules = mset trigger_rules"
  shows "fst (run_rules rules low st) = fst (run_rules trigger_rules low st)"
proof -
  have sub: "\<forall>rule\<in>set rules. rule \<in> set trigger_rules"
    using mset_eq_setD [OF assms] by simp
  have "risk_index (fst (run_rules rules low st)) = risk_index (fst (run_rules trigger_rules low st))"
    using run_rules_fst [OF sub, of low st] run_rules_fst [of trigger_rules low st]
      fold_max_perm [OF assms, of low "risk_index (fst st)"]
    by simp
  then show ?thesis by (rule risk_index_inj)
qed

lemma mset_concat_map_perm:
  assumes "mset xs = mset ys"
  shows "mset (concat (map f xs)) = mset (concat (map f ys))"
proof -
  have "mset (concat (map f zs)) = sum_mset (image_mset (\<lambda>z. mset (f z)) (mset zs))" for zs
    by (induction zs) simp_all
  then show ?thesis
    using assms by simp
qed

lemma run_rules_perm_snd:
  assumes "mset rules = mset trigger_rules"
  shows "mset (snd (run_rules rules low st)) = mset (snd (run_rules trigger_rules low st))"
proof -
  have sub: "\<forall>rule\<in>set rules. rule \<in> set trigger_rules"
    using mset_eq_setD [OF assms] by simp
  have "mset (concat (map (\<lambda>rule. rule_flags rule low) rules))
      = mset (concat (map (\<lambda>rule. rule_flags rule low) trigger_rules))"
    by (rule mset_concat_map_perm [OF assms])
  then show ?thesis
    using run_rules_snd [OF sub, of low st] run_rules_snd [of trigger_rules low st]
    by simp
qed

lemma rule_never_lowers:
  assumes "rule \<in> set trigger_rules"
  shows "risk_index (fst st) \<le> risk_index (fst (rule low st))"
  using rule_shape [OF assms, of low "fst st" "snd st"]
  by (simp add: risk_index_max_risk)

text \<open>
  C2.  Every trigger rule sets the level to the maximum of the current level and a target
  that depends on the text alone, so no rule lowers the level; therefore evaluating the
  twelve rules in any order (any permutation of \<open>trigger_rules\<close>) gives the same final
  level as \<open>clause_risk_level\<close>, and the same flags up to their order.
\<close>

theorem C2_rule_order_irrelevant:
  assumes "mset rules = mset trigger_rules"
  shows "fst (clause_risk_level_with rules text intent) = fst (clause_risk_level text intent)
    \<and> mset (snd (clause_risk_level_with rules text intent))
        = mset (snd (clause_risk_level text intent))
    \<and> (\<forall>rule\<in>set trigger_rules. \<forall>risk flags.
          fst (rule (lower text) (risk, flags)) = max_risk risk (fst (rule (lower text) (LOW, [])))
          \<and> risk_index risk \<le> risk_index (fst (rule (lower text) (risk, flags))))"
proof -
  have a: "fst (clause_risk_level_with rules text intent) = fst (clause_risk_level text intent)"
    using run_rules_perm_fst [OF assms, of "lower text" "(LOW, [])"]
    by (simp add: clause_risk_level_def clause_risk_level_with_def Let_def split_beta)
  have b: "mset (snd (clause_risk_level_with rules text intent))
        = mset (snd (clause_risk_level text intent))"
    using run_rules_perm_snd [OF assms, of "lower text" "(LOW, [])"]
    by (simp add: clause_risk_level_def clause_risk_level_with_def Let_def split_beta)
  have c: "\<forall>rule\<in>set trigger_rules. \<forall>risk flags.
          fst (rule (lower text) (risk, flags)) = max_risk risk (fst (rule (lower text) (LOW, [])))
          \<and> risk_index risk \<le> risk_index (fst (rule (lower text) (risk, flags)))"
  proof (intro ballI allI)
    fix rule risk flags
    assume r: "rule \<in> set trigger_rules"
    show "fst (rule (lower text) (risk, flags)) = max_risk risk (fst (rule (lower text) (LOW, [])))
          \<and> risk_index risk \<le> risk_index (fst (rule (lower text) (risk, flags)))"
      using rule_shape [OF r, of "lower text" risk flags]
        rule_never_lowers [OF r, of "(risk, flags)" "lower text"]
      by (simp add: rule_target_def)
  qed
  from a b c show ?thesis by blast
qed

theorem C2_rule_order_irrelevant_witness:
  "mset (rev trigger_rules) = mset trigger_rules
   \<and> fst (clause_risk_level_with (rev trigger_rules)
         ''Lock-in period. Either party may terminate.'' RIGHT) = HIGH
   \<and> rule_auto_renewal \<in> set trigger_rules
   \<and> risk_index HIGH
       \<le> risk_index (fst (rule_auto_renewal
           (lower ''Lock-in period. Either party may terminate.'') (HIGH, [])))"
proof -
  let ?t = "''Lock-in period. Either party may terminate.''"
  have p: "mset (rev trigger_rules) = mset trigger_rules"
    by simp
  have m: "rule_auto_renewal \<in> set trigger_rules"
    by (simp add: trigger_rules_def)
  have v: "fst (clause_risk_level ?t RIGHT) = HIGH"
    by code_simp
  note c2 = C2_rule_order_irrelevant [OF p, of ?t RIGHT]
  from c2 have a: "fst (clause_risk_level_with (rev trigger_rules) ?t RIGHT)
      = fst (clause_risk_level ?t RIGHT)"
    by (rule conjunct1)
  from c2 have c: "\<forall>rule\<in>set trigger_rules. \<forall>risk flags.
          fst (rule (lower ?t) (risk, flags)) = max_risk risk (fst (rule (lower ?t) (LOW, [])))
          \<and> risk_index risk \<le> risk_index (fst (rule (lower ?t) (risk, flags)))"
    by (rule conjunct2 [THEN conjunct2])
  from c m have d: "risk_index HIGH \<le> risk_index (fst (rule_auto_renewal (lower ?t) (HIGH, [])))"
    by blast
  from a v have e: "fst (clause_risk_level_with (rev trigger_rules) ?t RIGHT) = HIGH"
    by (rule trans)
  from p e m d show ?thesis
    by (intro conjI)
qed

lemma flagged_target:
  "rule_target rule_lock_in low = LOW \<or> rule_flags rule_lock_in low \<noteq> []"
  "rule_target rule_auto_renewal low = LOW \<or> rule_flags rule_auto_renewal low \<noteq> []"
  "rule_target rule_indemnity low = LOW \<or> rule_flags rule_indemnity low \<noteq> []"
  "rule_target rule_unlimited_liability low = LOW
     \<or> rule_flags rule_unlimited_liability low \<noteq> []"
  "rule_target rule_limitation_of_liability low = LOW
     \<or> rule_flags rule_limitation_of_liability low \<noteq> []"
  "rule_target rule_ip_assignment low = LOW \<or> rule_flags rule_ip_assignment low \<noteq> []"
  "rule_target rule_non_compete low = LOW \<or> rule_flags rule_non_compete low \<noteq> []"
  "rule_target rule_penalties low = LOW \<or> rule_flags rule_penalties low \<noteq> []"
  "rule_target rule_late_payment_interest low = LOW
     \<or> rule_flags rule_late_payment_interest low \<noteq> []"
  "rule_target rule_unilateral_termination low = LOW
     \<or> rule_flags rule_unilateral_termination low \<noteq> []"
  "rule_target rule_confidentiality low = LOW \<or> rule_flags rule_confidentiality low \<noteq> []"
  "rule_target rule_arbitration low = LOW \<or> rule_flags rule_arbitration low \<noteq> []"
  by (simp_all add: rule_defs rule_target_def rule_flags_def)

lemma rule_flagged_target:
  assumes "rule \<in> set trigger_rules"
  shows "rule_target rule low = LOW \<or> rule_flags rule low \<noteq> []"
proof -
  from assms consider
    "rule = rule_lock_in" | "rule = rule_auto_renewal" | "rule = rule_indemnity"
    | "rule = rule_unlimited_liability" | "rule = rule_limitation_of_liability"
    | "rule = rule_ip_assignment" | "rule = rule_non_compete" | "rule = rule_penalties"
    | "rule = rule_late_payment_interest" | "rule = rule_unilateral_termination"
    | "rule = rule_confidentiality" | "rule = rule_arbitration"
    unfolding trigger_rules_def by auto
  then show ?thesis
    by cases (simp_all only: flagged_target)
qed

lemma rule_keeps_flagged:
  assumes "rule \<in> set trigger_rules" and "fst st = LOW \<or> snd st \<noteq> []"
  shows "fst (rule low st) = LOW \<or> snd (rule low st) \<noteq> []"
proof -
  obtain risk flags where st: "st = (risk, flags)" by (cases st)
  show ?thesis
    using rule_flagged_target [OF assms(1), of low] assms(2)
    unfolding st rule_shape [OF assms(1)]
    by (auto simp: max_risk_simps)
qed

lemma run_rules_keeps_flagged:
  assumes "\<forall>rule\<in>set rules. rule \<in> set trigger_rules" and "fst st = LOW \<or> snd st \<noteq> []"
  shows "fst (run_rules rules low st) = LOW \<or> snd (run_rules rules low st) \<noteq> []"
  using assms
proof (induction rules arbitrary: st)
  case Nil
  then show ?case by (simp add: run_rules_def)
next
  case (Cons rule rules)
  have step: "fst (rule low st) = LOW \<or> snd (rule low st) \<noteq> []"
    by (rule rule_keeps_flagged) (use Cons.prems in simp_all)
  have "fst (run_rules rules low (rule low st)) = LOW
      \<or> snd (run_rules rules low (rule low st)) \<noteq> []"
    by (rule Cons.IH) (use Cons.prems step in simp_all)
  then show ?case by (simp add: run_rules_def)
qed

text \<open>
  C10.  Whenever \<open>clause_risk_level\<close> returns MEDIUM or HIGH, the flag list is not empty
  or the intent is PROHIBITION.
\<close>

theorem C10_escalation_has_flag_or_prohibition:
  assumes "fst (clause_risk_level text intent) = MEDIUM \<or> fst (clause_risk_level text intent) = HIGH"
  shows "snd (clause_risk_level text intent) \<noteq> [] \<or> intent = PROHIBITION"
proof -
  have "fst (run_rules trigger_rules (lower text) (LOW, [])) = LOW
      \<or> snd (run_rules trigger_rules (lower text) (LOW, [])) \<noteq> []"
    by (rule run_rules_keeps_flagged) simp_all
  then show ?thesis
    using assms
    by (auto simp: clause_risk_level_def clause_risk_level_with_def Let_def split_beta
        split: if_splits)
qed

theorem C10_escalation_has_flag_or_prohibition_witness:
  "fst (clause_risk_level ''This is a lock-in period.'' OBLIGATION) = HIGH
   \<and> snd (clause_risk_level ''This is a lock-in period.'' OBLIGATION) \<noteq> []"
proof -
  have v: "fst (clause_risk_level ''This is a lock-in period.'' OBLIGATION) = HIGH"
    by code_simp
  then have h: "fst (clause_risk_level ''This is a lock-in period.'' OBLIGATION) = MEDIUM
      \<or> fst (clause_risk_level ''This is a lock-in period.'' OBLIGATION) = HIGH"
    by (rule disjI2)
  have "OBLIGATION \<noteq> PROHIBITION"
    by simp
  with C10_escalation_has_flag_or_prohibition [OF h]
  have "snd (clause_risk_level ''This is a lock-in period.'' OBLIGATION) \<noteq> []"
    by blast
  with v show ?thesis
    by (intro conjI)
qed

end
